theory Spec2Isabelle
  imports Complex_Main
begin

section \<open>Shared data types (package backend)\<close>

text \<open>
  A \<^verbatim>\<open>time.Time\<close> is an instant; it is modelled as an integer (nanoseconds on one
  time line), \<^verbatim>\<open>Before\<close> as \<open><\<close> and \<^verbatim>\<open>After\<close> as \<open>>\<close>. The \<^verbatim>\<open>float64\<close> value of a
  point is never computed with by the functions embedded here, so its type is left as
  the parameter \<open>'v\<close>. A Go \<^verbatim>\<open>error\<close> is its message; the interface value \<^verbatim>\<open>nil\<close> is
  \<open>None\<close>. A pointer \<^verbatim>\<open>*TimeSeriesResult\<close> is an option, \<^verbatim>\<open>nil\<close> being \<open>None\<close>; none
  of the functions below writes through such a pointer, so the pointee is carried by
  value.
\<close>

record 'v DataPoint =
  Timestamp :: int
  Value :: 'v

record 'v TimeSeriesResult =
  Points :: "'v DataPoint list"

record Query =
  QName :: string
  Expr :: string

section \<open>The terminal user interface (internal/ui/ui.go)\<close>

datatype panic = IndexOutOfRange | NilDereference

datatype color = ColorDefault | ColorYellow | ColorWhite

text \<open>
  The text of a panel, as the arguments of the \<^verbatim>\<open>SetText\<close> call that wrote it:
  \<^verbatim>\<open>"Initializing..."\<close>, \<^verbatim>\<open>"[red]Error: %v[white]"\<close> with the error,
  \<^verbatim>\<open>"No data available"\<close>, or the graph block with the caption's query name, the plotted
  value sequence, the latest value and the oldest and latest timestamps. The width and
  height handed to the plotting library depend on the terminal geometry and on the
  printed width of a float; they are not part of the model.
\<close>

datatype 'v panel_text =
    Initializing
  | ErrorText string
  | NoDataAvailable
  | GraphText string "'v list" 'v int int

record 'v panel =
  title :: string
  content :: "'v panel_text"
  borderColor :: color
  titleColor :: color

text \<open>
  The text of the time-range footer: the text set by \<^verbatim>\<open>setupUI\<close>, the waiting placeholder
  of \<^verbatim>\<open>updateTimeRange\<close>, or the range with the two instants handed to \<^verbatim>\<open>Format\<close>.
\<close>

datatype footer = FooterInitial | FooterWaiting | FooterRange int int

record 'v QueryHistory =
  Name :: string
  TimeSeries :: "'v TimeSeriesResult option"
  LastError :: "string option"

text \<open>
  The \<^verbatim>\<open>tview.Application\<close>: the closures queued by \<^verbatim>\<open>QueueUpdateDraw\<close> and not yet run (each
  closure of \<^verbatim>\<open>UpdateTimeSeries\<close> is determined by the index and the error it captured),
  and the panel that holds the keyboard focus.
\<close>

record Application =
  updates :: "(int \<times> string option) list"
  focus :: "nat option"

text \<open>
  The \<^verbatim>\<open>TUI\<close> struct. \<open>scrollView\<close> lists the items of the horizontal flex container: the
  index of each panel added and the focus flag it was added with. The outer \<^verbatim>\<open>flex\<close>
  container and the \<^verbatim>\<open>onQuit\<close> callback take no part in the functions embedded here.
  Go's \<^verbatim>\<open>int\<close> is modelled as \<open>int\<close>: every value computed below is bounded by a slice
  length or is one of the three view fields.
\<close>

record 'v TUI =
  app :: "Application option"
  scrollView :: "(nat \<times> bool) list"
  panels :: "'v panel list"
  timeRange :: "footer option"
  focusIndex :: int
  scrollOffset :: int
  visiblePanels :: int
  histories :: "'v QueryHistory list"

text \<open>Go's remainder truncates towards zero; every caller guards the divisor.\<close>

definition go_rem :: "int \<Rightarrow> int \<Rightarrow> int" where
  "go_rem a b = sgn a * (\<bar>a\<bar> mod \<bar>b\<bar>)"

text \<open>The loop of \<^verbatim>\<open>updateScrollView\<close>: \<^verbatim>\<open>panel := t.panels[i]\<close>, then \<^verbatim>\<open>AddItem\<close>.\<close>

fun add_items :: "'v TUI \<Rightarrow> int list \<Rightarrow> panic + 'v TUI" where
  "add_items t [] = Inr t"
| "add_items t (i # is) =
     (if 0 \<le> i \<and> i < int (length (panels t))
      then add_items (t\<lparr>scrollView := scrollView t @ [(nat i, i = focusIndex t)]\<rparr>) is
      else Inl IndexOutOfRange)"

definition updateScrollView :: "'v TUI \<Rightarrow> panic + 'v TUI" where
  "updateScrollView t0 =
     (let t = t0\<lparr>scrollView := []\<rparr> in
      if length (panels t) = 0 then Inr t
      else
        let maxOffset0 = int (length (panels t)) - visiblePanels t;
            maxOffset = (if maxOffset0 < 0 then 0 else maxOffset0);
            t1 = (if scrollOffset t > maxOffset then t\<lparr>scrollOffset := maxOffset\<rparr> else t);
            t2 = (if scrollOffset t1 < 0 then t1\<lparr>scrollOffset := 0\<rparr> else t1);
            endIndex0 = scrollOffset t2 + visiblePanels t2;
            endIndex = (if endIndex0 > int (length (panels t2)) then int (length (panels t2))
                        else endIndex0)
        in add_items t2 [scrollOffset t2 .. endIndex - 1])"

definition scrollToShowFocus :: "'v TUI \<Rightarrow> panic + 'v TUI" where
  "scrollToShowFocus t =
     (if length (panels t) = 0 then Inr t
      else
        let visibleStart = scrollOffset t;
            visibleEnd = scrollOffset t + visiblePanels t - 1;
            t1 = (if focusIndex t > visibleEnd
                  then t\<lparr>scrollOffset := focusIndex t - visiblePanels t + 1\<rparr> else t);
            t2 = (if focusIndex t1 < visibleStart
                  then t1\<lparr>scrollOffset := focusIndex t1\<rparr> else t1)
        in updateScrollView t2)"

text \<open>The colouring loop of \<^verbatim>\<open>updateFocus\<close> over \<^verbatim>\<open>t.panels\<close>, from index \<open>i\<close> on.\<close>

fun colour_panels :: "int \<Rightarrow> nat \<Rightarrow> 'v panel list \<Rightarrow> 'v panel list" where
  "colour_panels f i [] = []"
| "colour_panels f i (p # ps) =
     (if int i = f then p\<lparr>borderColor := ColorYellow, titleColor := ColorYellow\<rparr>
      else p\<lparr>borderColor := ColorWhite, titleColor := ColorWhite\<rparr>)
     # colour_panels f (Suc i) ps"

definition updateFocus :: "'v TUI \<Rightarrow> panic + 'v TUI" where
  "updateFocus t =
     (if length (panels t) = 0 then Inr t
      else
        let t1 = t\<lparr>panels := colour_panels (focusIndex t) 0 (panels t)\<rparr>;
            visibleStart = scrollOffset t1;
            visibleEnd = scrollOffset t1 + visiblePanels t1 - 1
        in if focusIndex t1 \<ge> visibleStart \<and> focusIndex t1 \<le> visibleEnd
           then (if 0 \<le> focusIndex t1 \<and> focusIndex t1 < int (length (panels t1))
                 then (case app t1 of
                         None \<Rightarrow> Inl NilDereference
                       | Some a \<Rightarrow> Inr (t1\<lparr>app := Some (a\<lparr>focus := Some (nat (focusIndex t1))\<rparr>)\<rparr>))
                 else Inl IndexOutOfRange)
           else Inr t1)"

definition focusNext :: "'v TUI \<Rightarrow> panic + 'v TUI" where
  "focusNext t =
     (if length (panels t) > 0
      then (case scrollToShowFocus
                   (t\<lparr>focusIndex := go_rem (focusIndex t + 1) (int (length (panels t)))\<rparr>) of
              Inl e \<Rightarrow> Inl e
            | Inr t' \<Rightarrow> updateFocus t')
      else Inr t)"

definition focusPrev :: "'v TUI \<Rightarrow> panic + 'v TUI" where
  "focusPrev t =
     (if length (panels t) > 0
      then (case scrollToShowFocus
                   (t\<lparr>focusIndex := go_rem (focusIndex t - 1 + int (length (panels t)))
                                          (int (length (panels t)))\<rparr>) of
              Inl e \<Rightarrow> Inl e
            | Inr t' \<Rightarrow> updateFocus t')
      else Inr t)"

text \<open>
  \<^verbatim>\<open>NewTUI\<close> with \<^verbatim>\<open>setupUI\<close> inlined where the source calls it: one history and one panel per
  query, the visible count derived from the number of queries, then \<^verbatim>\<open>updateScrollView\<close>,
  the footer, and \<^verbatim>\<open>updateFocus\<close>.
\<close>

definition new_history :: "Query \<Rightarrow> 'v QueryHistory" where
  "new_history q = \<lparr>Name = QName q, TimeSeries = Some \<lparr>Points = []\<rparr>, LastError = None\<rparr>"

definition new_panel :: "Query \<Rightarrow> 'v panel" where
  "new_panel q = \<lparr>title = '' '' @ QName q @ '' '', content = Initializing,
                  borderColor = ColorDefault, titleColor = ColorDefault\<rparr>"

definition setupUI :: "'v TUI \<Rightarrow> Query list \<Rightarrow> panic + 'v TUI" where
  "setupUI t queries =
     (let t1 = t\<lparr>scrollView := [], panels := map new_panel queries\<rparr>;
          t2 = (if length queries \<le> 2 then t1\<lparr>visiblePanels := int (length queries)\<rparr>
                else if length queries = 3 then t1\<lparr>visiblePanels := 3\<rparr>
                else t1\<lparr>visiblePanels := 3\<rparr>)
      in case updateScrollView t2 of
           Inl e \<Rightarrow> Inl e
         | Inr t3 \<Rightarrow> updateFocus (t3\<lparr>timeRange := Some FooterInitial\<rparr>))"

definition NewTUI :: "Query list \<Rightarrow> panic + 'v TUI" where
  "NewTUI queries =
     setupUI \<lparr>app = Some \<lparr>updates = [], focus = None\<rparr>, scrollView = [], panels = [],
              timeRange = None, focusIndex = 0, scrollOffset = 0, visiblePanels = 3,
              histories = map new_history queries\<rparr> queries"

subsection \<open>The time-range footer\<close>

text \<open>
  The two nested loops of \<^verbatim>\<open>updateTimeRange\<close>. The three locals \<^verbatim>\<open>hasData\<close>,
  \<^verbatim>\<open>earliestTime\<close> and \<^verbatim>\<open>latestTime\<close> are set together, so the accumulator is \<open>None\<close>
  while \<^verbatim>\<open>hasData\<close> is false and holds both instants afterwards. The module declares
  \<^verbatim>\<open>go 1.23.0\<close>: the loop variable \<^verbatim>\<open>point\<close> is fresh in each iteration, so the two
  pointers keep the instants they were taken from.
\<close>

fun scan_points :: "'v DataPoint list \<Rightarrow> (int \<times> int) option \<Rightarrow> (int \<times> int) option" where
  "scan_points [] acc = acc"
| "scan_points (p # ps) acc =
     scan_points ps
       (case acc of
          None \<Rightarrow> Some (Timestamp p, Timestamp p)
        | Some (e, l) \<Rightarrow>
            Some (if Timestamp p < e then Timestamp p else e,
                  if Timestamp p > l then Timestamp p else l))"

fun scan_histories :: "'v QueryHistory list \<Rightarrow> (int \<times> int) option \<Rightarrow> (int \<times> int) option" where
  "scan_histories [] acc = acc"
| "scan_histories (h # hs) acc =
     scan_histories hs
       (case TimeSeries h of
          None \<Rightarrow> acc
        | Some ts \<Rightarrow> if length (Points ts) > 0 then scan_points (Points ts) acc else acc)"

definition updateTimeRange :: "'v TUI \<Rightarrow> 'v TUI" where
  "updateTimeRange t =
     (case timeRange t of
        None \<Rightarrow> t
      | Some _ \<Rightarrow>
          t\<lparr>timeRange :=
              Some (case scan_histories (histories t) None of
                      Some (e, l) \<Rightarrow> FooterRange e l
                    | None \<Rightarrow> FooterWaiting)\<rparr>)"

subsection \<open>Updates and rendering\<close>

definition set_panel_text :: "'v TUI \<Rightarrow> int \<Rightarrow> 'v panel_text \<Rightarrow> panic + 'v TUI" where
  "set_panel_text t index txt =
     (if 0 \<le> index \<and> index < int (length (panels t))
      then Inr (t\<lparr>panels := (panels t)[nat index := (panels t ! nat index)\<lparr>content := txt\<rparr>]\<rparr>)
      else Inl IndexOutOfRange)"

text \<open>
  \<^verbatim>\<open>renderTimeSeriesGraph\<close>: the points are copied into a fresh slice and the copy is
  sorted by timestamp; \<^verbatim>\<open>sort.Slice\<close> promises no order among equal timestamps, the model
  takes the stable one.
\<close>

definition renderTimeSeriesGraph :: "'v TUI \<Rightarrow> int \<Rightarrow> panic + 'v TUI" where
  "renderTimeSeriesGraph t index =
     (if \<not> (0 \<le> index \<and> index < int (length (histories t))) then Inl IndexOutOfRange
      else if \<not> (0 \<le> index \<and> index < int (length (panels t))) then Inl IndexOutOfRange
      else
        let history = histories t ! nat index in
        case TimeSeries history of
          None \<Rightarrow> Inl NilDereference
        | Some ts \<Rightarrow>
            if length (Points ts) = 0 then set_panel_text t index NoDataAvailable
            else
              let points = sort_key Timestamp (Points ts);
                  values = map Value points;
                  latest = points ! (length points - 1);
                  oldest = points ! 0
              in set_panel_text t index
                   (GraphText (Name history) values (Value latest)
                      (Timestamp oldest) (Timestamp latest)))"

definition UpdateTimeSeries ::
  "'v TUI \<Rightarrow> int \<Rightarrow> 'v TimeSeriesResult option \<Rightarrow> string option \<Rightarrow> 'v TUI" where
  "UpdateTimeSeries t index timeSeries err =
     (if index < 0 \<or> index \<ge> int (length (histories t)) then t
      else
        let h = histories t ! nat index;
            h' = (if err \<noteq> None then h\<lparr>LastError := err\<rparr>
                  else h\<lparr>TimeSeries := timeSeries, LastError := None\<rparr>);
            t1 = t\<lparr>histories := (histories t)[nat index := h']\<rparr>
        in case app t1 of
             None \<Rightarrow> t1
           | Some a \<Rightarrow>
               if int (length (panels t1)) > index
               then t1\<lparr>app := Some (a\<lparr>updates := updates a @ [(index, err)]\<rparr>)\<rparr>
               else t1)"

text \<open>The body of the closure that \<^verbatim>\<open>UpdateTimeSeries\<close> queues, run later by the UI loop.\<close>

definition run_update :: "'v TUI \<Rightarrow> int \<times> string option \<Rightarrow> panic + 'v TUI" where
  "run_update t u =
     (case (case snd u of
              Some e \<Rightarrow> set_panel_text t (fst u) (ErrorText e)
            | None \<Rightarrow> renderTimeSeriesGraph t (fst u)) of
        Inl e \<Rightarrow> Inl e
      | Inr t' \<Rightarrow> Inr (updateTimeRange t'))"

text \<open>The UI loop takes the queued closures in order and runs each to its end.\<close>

fun run_all :: "'v TUI \<Rightarrow> (int \<times> string option) list \<Rightarrow> panic + 'v TUI" where
  "run_all t [] = Inr t"
| "run_all t (u # us) = (case run_update t u of Inl e \<Rightarrow> Inl e | Inr t' \<Rightarrow> run_all t' us)"

definition drain :: "'v TUI \<Rightarrow> panic + 'v TUI" where
  "drain t =
     (case app t of
        None \<Rightarrow> Inr t
      | Some a \<Rightarrow> run_all (t\<lparr>app := Some (a\<lparr>updates := []\<rparr>)\<rparr>) (updates a))"

definition UpdateMetric :: "'v TUI \<Rightarrow> int \<Rightarrow> 'v DataPoint \<Rightarrow> string option \<Rightarrow> 'v TUI" where
  "UpdateMetric t index result err =
     (if err \<noteq> None then UpdateTimeSeries t index None err
      else UpdateTimeSeries t index (Some \<lparr>Points = [result]\<rparr>) None)"

section \<open>Properties and sample states\<close>

text \<open>
  The states navigation is proved on. \<open>nav_ok\<close>: the application is there and the focus
  index lies in the panel list (so there is at least one panel). \<open>view_ok\<close>: moreover at
  least one panel is visible at a time. \<^verbatim>\<open>NewTUI\<close> builds such a state from every non-empty
  query list, and \<^verbatim>\<open>focusNext\<close> and \<^verbatim>\<open>focusPrev\<close> keep it.
\<close>

definition nav_ok :: "'v TUI \<Rightarrow> bool" where
  "nav_ok t \<longleftrightarrow>
     app t \<noteq> None \<and> 0 \<le> focusIndex t \<and> focusIndex t < int (length (panels t))"

definition view_ok :: "'v TUI \<Rightarrow> bool" where
  "view_ok t \<longleftrightarrow> nav_ok t \<and> 1 \<le> visiblePanels t"

text \<open>
  The scroll offset as the specification words it: \<open>focus - visible + 1\<close> when the focus
  is right of the window, the focus when it is left of it, then clamped to
  \<open>[0, max 0 (n - visible)]\<close>. \<open>code_adjust\<close> is the first half as the two \<^verbatim>\<open>if\<close> statements
  of \<^verbatim>\<open>scrollToShowFocus\<close> compute it (the second test still compares with the old
  offset).
\<close>

definition spec_scroll_offset :: "int \<Rightarrow> int \<Rightarrow> int \<Rightarrow> int \<Rightarrow> int" where
  "spec_scroll_offset f offset visible n =
     (let adjusted = (if f > offset + visible - 1 then f - visible + 1
                      else if f < offset then f else offset)
      in max 0 (min adjusted (max 0 (n - visible))))"

definition code_adjust :: "int \<Rightarrow> int \<Rightarrow> int \<Rightarrow> int" where
  "code_adjust f offset visible =
     (if f < offset then f
      else if f > offset + visible - 1 then f - visible + 1 else offset)"

text \<open>
  The window invariant and the bounds of the scroll offset.
\<close>

definition focus_visible :: "'v TUI \<Rightarrow> bool" where
  "focus_visible t \<longleftrightarrow>
     scrollOffset t \<le> focusIndex t \<and> focusIndex t \<le> scrollOffset t + visiblePanels t - 1"

definition offset_in_bounds :: "'v TUI \<Rightarrow> bool" where
  "offset_in_bounds t \<longleftrightarrow>
     0 \<le> scrollOffset t \<and>
     scrollOffset t \<le> max 0 (int (length (panels t)) - visiblePanels t)"

text \<open>
  \<open>repeat_nav k f\<close> presses the same navigation key \<open>k\<close> times.
\<close>

fun repeat_nav :: "nat \<Rightarrow> ('v TUI \<Rightarrow> panic + 'v TUI) \<Rightarrow> 'v TUI \<Rightarrow> panic + 'v TUI" where
  "repeat_nav 0 f t = Inr t"
| "repeat_nav (Suc k) f t = (case f t of Inl e \<Rightarrow> Inl e | Inr t' \<Rightarrow> repeat_nav k f t')"




text \<open>
  Every history has a series (its pointer is not \<^verbatim>\<open>nil\<close>).
\<close>

definition series_non_nil :: "'v TUI \<Rightarrow> bool" where
  "series_non_nil t \<longleftrightarrow> list_all (\<lambda>h. TimeSeries h \<noteq> None) (histories t)"

text \<open>
  Sample inputs: four queries, the state \<^verbatim>\<open>NewTUI\<close> builds from them and the one it builds
  from no query, an unsorted series, and the state after two panels have received data.
\<close>

definition demo_queries :: "Query list" where
  "demo_queries =
     [\<lparr>QName = ''cpu'', Expr = ''cpu_usage''\<rparr>, \<lparr>QName = ''mem'', Expr = ''mem_usage''\<rparr>,
      \<lparr>QName = ''disk'', Expr = ''disk_io''\<rparr>, \<lparr>QName = ''net'', Expr = ''net_rx''\<rparr>]"

definition demo_tui :: "real TUI" where
  "demo_tui =
     \<lparr>app = Some \<lparr>updates = [], focus = Some 0\<rparr>,
      scrollView = [(0, True), (1, False), (2, False)],
      panels = colour_panels 0 0 (map new_panel demo_queries),
      timeRange = Some FooterInitial, focusIndex = 0, scrollOffset = 0, visiblePanels = 3,
      histories = map new_history demo_queries\<rparr>"

definition empty_tui :: "real TUI" where
  "empty_tui =
     \<lparr>app = Some \<lparr>updates = [], focus = None\<rparr>, scrollView = [], panels = [],
      timeRange = Some FooterInitial, focusIndex = 0, scrollOffset = 0, visiblePanels = 0,
      histories = []\<rparr>"

definition demo_series :: "real TimeSeriesResult" where
  "demo_series =
     \<lparr>Points = [\<lparr>Timestamp = 30, Value = 3.5\<rparr>, \<lparr>Timestamp = 10, Value = 1.5\<rparr>,
                \<lparr>Timestamp = 20, Value = 2.5\<rparr>]\<rparr>"




section \<open>Backend selection and startup (internal/config, internal/app/app.go, main.go)\<close>

text \<open>
  The configuration structs of the four backends and of the application. Field names
  that several structs share (\<^verbatim>\<open>URL\<close>, \<^verbatim>\<open>Token\<close>, ...) carry the package name in front.
\<close>

record PromConfig =
  prom_URL :: string

record InfluxDBConfig =
  influxdb_URL :: string
  influxdb_Token :: string
  influxdb_Org :: string
  influxdb_Bucket :: string

record InfluxDB1Config =
  influxdb1_URL :: string
  influxdb1_Username :: string
  influxdb1_Password :: string
  influxdb1_Database :: string
  influxdb1_UseHTTPS :: bool

record MockConfig =
  Seed :: int

record Config =
  Backend :: string
  Prometheus :: PromConfig
  InfluxDB :: InfluxDBConfig
  InfluxDB1 :: InfluxDB1Config
  Mock :: MockConfig
  Queries :: "Query list"

text \<open>
  A value of the \<^verbatim>\<open>backend.Backend\<close> interface is one of the four client types; each
  client is modelled by the configuration it was built from (the mock client also by the
  seed of its random source), and \<^verbatim>\<open>Name()\<close> by \<open>client_Name\<close>.
\<close>

datatype Client =
    PromClient PromConfig
  | InfluxDBClient InfluxDBConfig
  | InfluxDB1Client InfluxDB1Config
  | MockClient MockConfig int

fun client_Name :: "Client \<Rightarrow> string" where
  "client_Name (PromClient _) = ''prometheus''"
| "client_Name (InfluxDBClient _) = ''influxdb''"
| "client_Name (InfluxDB1Client _) = ''influxdb1''"
| "client_Name (MockClient _ _) = ''mock''"

text \<open>
  What lies outside the repository is a parameter: whether the configuration file exists,
  what reading and parsing it gives, whether the client libraries of Prometheus and
  InfluxDB v1 accept their configuration (\<open>None\<close>: no error), the clock that seeds the
  mock client, and whether \<^verbatim>\<open>Connect\<close> succeeds.
\<close>

record world =
  Exists :: "string \<Rightarrow> bool"
  ReadFile :: "string \<Rightarrow> string + string"
  Unmarshal :: "string \<Rightarrow> string + Config"
  api_NewClient :: "string \<Rightarrow> string option"
  NewHTTPClient :: "InfluxDB1Config \<Rightarrow> string option"
  UnixNano :: int
  Connect :: "Client \<Rightarrow> string option"

text \<open>
  The four \<^verbatim>\<open>NewClient\<close> constructors, and \<^verbatim>\<open>createBackend\<close> with the cases of its
  \<^verbatim>\<open>switch\<close> in the order of the source.
\<close>

definition prom_NewClient :: "world \<Rightarrow> PromConfig \<Rightarrow> string + Client" where
  "prom_NewClient w c =
     (case api_NewClient w (prom_URL c) of
        Some e \<Rightarrow> Inl (''failed to create Prometheus client: '' @ e)
      | None \<Rightarrow> Inr (PromClient c))"

definition influxdb_NewClient :: "InfluxDBConfig \<Rightarrow> string + Client" where
  "influxdb_NewClient c =
     (if influxdb_URL c = [] then Inl ''InfluxDB URL is required''
      else if influxdb_Token c = [] then Inl ''InfluxDB token is required''
      else if influxdb_Org c = [] then Inl ''InfluxDB organization is required''
      else if influxdb_Bucket c = [] then Inl ''InfluxDB bucket is required''
      else Inr (InfluxDBClient c))"

definition influxdb1_NewClient :: "world \<Rightarrow> InfluxDB1Config \<Rightarrow> string + Client" where
  "influxdb1_NewClient w c =
     (if influxdb1_URL c = [] then Inl ''InfluxDB v1 URL is required''
      else if influxdb1_Database c = [] then Inl ''InfluxDB v1 database is required''
      else case NewHTTPClient w c of
             Some e \<Rightarrow> Inl (''failed to create InfluxDB v1 client: '' @ e)
           | None \<Rightarrow> Inr (InfluxDB1Client c))"

definition mock_NewClient :: "world \<Rightarrow> MockConfig \<Rightarrow> Client" where
  "mock_NewClient w c = MockClient c (if Seed c = 0 then UnixNano w else Seed c)"

definition unsupported_backend :: "string \<Rightarrow> string" where
  "unsupported_backend b =
     ''unsupported backend: '' @ b @ '' (supported: prometheus, influxdb, influxdb1, mock)''"

definition createBackend :: "world \<Rightarrow> Config \<Rightarrow> string + Client" where
  "createBackend w cfg =
     (if Backend cfg = ''prometheus'' \<or> Backend cfg = [] then prom_NewClient w (Prometheus cfg)
      else if Backend cfg = ''influxdb'' then influxdb_NewClient (InfluxDB cfg)
      else if Backend cfg = ''influxdb1'' then influxdb1_NewClient w (InfluxDB1 cfg)
      else if Backend cfg = ''mock'' then Inr (mock_NewClient w (Mock cfg))
      else Inl (unsupported_backend (Backend cfg)))"

text \<open>
  \<^verbatim>\<open>Config.Validate\<close>: the default backend, the \<^verbatim>\<open>switch\<close> over the backend (\<open>validate_backend\<close>),
  the query list (\<open>validate_queries\<close> is the loop, \<open>decimal\<close> prints the index for \<^verbatim>\<open>%d\<close>);
  then \<^verbatim>\<open>LoadConfig\<close>.
\<close>

fun decimal :: "nat \<Rightarrow> string" where
  "decimal n =
     (if n < 10 then [char_of (48 + n)] else decimal (n div 10) @ [char_of (48 + n mod 10)])"

fun validate_queries :: "nat \<Rightarrow> Query list \<Rightarrow> string option" where
  "validate_queries i [] = None"
| "validate_queries i (q # qs) =
     (if QName q = [] then Some (''query '' @ decimal i @ '': name is required'')
      else if Expr q = [] then Some (''query '' @ decimal i @ '': expr is required'')
      else validate_queries (Suc i) qs)"

definition validate_backend :: "Config \<Rightarrow> string option" where
  "validate_backend c =
     (if Backend c = ''prometheus'' then
        (if prom_URL (Prometheus c) = [] then Some ''prometheus.url is required'' else None)
      else if Backend c = ''influxdb'' then
        (if influxdb_URL (InfluxDB c) = [] then Some ''influxdb.url is required''
         else if influxdb_Token (InfluxDB c) = [] then Some ''influxdb.token is required''
         else if influxdb_Org (InfluxDB c) = [] then Some ''influxdb.org is required''
         else if influxdb_Bucket (InfluxDB c) = [] then Some ''influxdb.bucket is required''
         else None)
      else if Backend c = ''influxdb1'' then
        (if influxdb1_URL (InfluxDB1 c) = [] then Some ''influxdb1.url is required''
         else if influxdb1_Database (InfluxDB1 c) = [] then Some ''influxdb1.database is required''
         else None)
      else if Backend c = ''mock'' then None
      else Some (unsupported_backend (Backend c)))"

definition Validate :: "Config \<Rightarrow> string + Config" where
  "Validate c0 =
     (let c = (if Backend c0 = [] then c0\<lparr>Backend := ''prometheus''\<rparr> else c0) in
      case validate_backend c of
        Some e \<Rightarrow> Inl e
      | None \<Rightarrow>
          if length (Queries c) = 0 then Inl ''at least one query is required''
          else case validate_queries 0 (Queries c) of
                 Some e \<Rightarrow> Inl e
               | None \<Rightarrow> Inr c)"

definition LoadConfig :: "world \<Rightarrow> string \<Rightarrow> string + Config" where
  "LoadConfig w path =
     (case ReadFile w path of
        Inl e \<Rightarrow> Inl (''failed to read config file: '' @ e)
      | Inr data \<Rightarrow>
          (case Unmarshal w data of
             Inl e \<Rightarrow> Inl (''failed to parse YAML: '' @ e)
           | Inr config \<Rightarrow>
               (case Validate config of
                  Inl e \<Rightarrow> Inl (''invalid configuration: '' @ e)
                | Inr c \<Rightarrow> Inr c)))"

text \<open>
  \<^verbatim>\<open>app.New\<close> returns the application or an error. The model also returns what it did to the
  outside on the way: the \<^verbatim>\<open>Connect\<close> call and the construction of the UI. \<open>main_startup\<close>
  is \<^verbatim>\<open>main\<close> up to the call of \<^verbatim>\<open>Start\<close>: exit code 1 when the file is missing or \<^verbatim>\<open>New\<close>
  fails (2 is the exit code of a Go panic).
\<close>

datatype failure = Error string | Panic panic

datatype event = Connected Client | BuiltUI

record 'v App =
  config :: Config
  backend :: Client
  ui :: "'v TUI"

definition New :: "world \<Rightarrow> string \<Rightarrow> event list \<times> (failure + 'v App)" where
  "New w configPath =
     (case LoadConfig w configPath of
        Inl e \<Rightarrow> ([], Inl (Error (''failed to load config: '' @ e)))
      | Inr cfg \<Rightarrow>
          (case createBackend w cfg of
             Inl e \<Rightarrow> ([], Inl (Error (''failed to create backend: '' @ e)))
           | Inr b \<Rightarrow>
               (case Connect w b of
                  Some e \<Rightarrow> ([Connected b], Inl (Error e))
                | None \<Rightarrow>
                    (case NewTUI (Queries cfg) of
                       Inl p \<Rightarrow> ([Connected b, BuiltUI], Inl (Panic p))
                     | Inr t \<Rightarrow>
                         ([Connected b, BuiltUI],
                          Inr \<lparr>config = cfg, backend = b, ui = t\<rparr>)))))"

datatype 'v startup = ExitCode nat | Started "'v App"

definition main_startup :: "world \<Rightarrow> string \<Rightarrow> event list \<times> 'v startup" where
  "main_startup w configPath =
     (if \<not> Exists w configPath then ([], ExitCode 1)
      else case New w configPath of
             (evs, Inl (Error e)) \<Rightarrow> (evs, ExitCode 1)
           | (evs, Inl (Panic p)) \<Rightarrow> (evs, ExitCode 2)
           | (evs, Inr a) \<Rightarrow> (evs, Started a))"

text \<open>
  The identifiers that \<^verbatim>\<open>createBackend\<close> has a case for; the empty identifier stands for
  Prometheus.
\<close>

definition supported_backend :: "string \<Rightarrow> bool" where
  "supported_backend b \<longleftrightarrow>
     b \<in> set [''prometheus'', [], ''influxdb'', ''influxdb1'', ''mock'']"

definition demo_config :: "string \<Rightarrow> Config" where
  "demo_config b =
     \<lparr>Backend = b, Prometheus = \<lparr>prom_URL = ''http://localhost:9090''\<rparr>,
      InfluxDB = \<lparr>influxdb_URL = [], influxdb_Token = [], influxdb_Org = [],
                  influxdb_Bucket = []\<rparr>,
      InfluxDB1 = \<lparr>influxdb1_URL = [], influxdb1_Username = [], influxdb1_Password = [],
                   influxdb1_Database = [], influxdb1_UseHTTPS = False\<rparr>,
      Mock = \<lparr>Seed = 7\<rparr>, Queries = demo_queries\<rparr>"

definition demo_world :: "string \<Rightarrow> world" where
  "demo_world b =
     \<lparr>Exists = (\<lambda>p. True), ReadFile = (\<lambda>p. Inr b), Unmarshal = (\<lambda>d. Inr (demo_config d)),
      api_NewClient = (\<lambda>a. None), NewHTTPClient = (\<lambda>c. None), UnixNano = 1,
      Connect = (\<lambda>c. None)\<rparr>"

section \<open>Start and Stop (internal/app/app.go)\<close>

text \<open>
  The goroutines of the running application, interleaved. The state holds the fields of
  \<^verbatim>\<open>App\<close> that \<^verbatim>\<open>Start\<close> and \<^verbatim>\<open>Stop\<close> touch (the ticker, the context, the wait group, the
  backend) and the goroutines alive: the one running \<^verbatim>\<open>updateLoop\<close>, the one \<^verbatim>\<open>Start\<close> spawns
  for the initial \<^verbatim>\<open>updateMetrics\<close>, and the per-query goroutines that are between their
  spawn and the return of \<^verbatim>\<open>QueryTimeSeries\<close> (\<open>in_flight\<close>, by query index). \<open>stop_at\<close> is
  the statement of \<^verbatim>\<open>Stop\<close> last executed.
\<close>

datatype stop_pc = Idle | TickerStopped | CtxCancelled | UIStopped | Waited | BackendClosed

record runtime =
  ticker_running :: bool
  ctx_done :: bool
  ui_running :: bool
  wg :: nat
  loop_alive :: bool
  initial_update_pending :: bool
  in_flight :: "nat list"
  stop_at :: stop_pc
  backend_closed :: bool

datatype action = InitialUpdate | Tick | QueryReturns nat | LoopSeesDone | StopStep

text \<open>
  \<open>Start\<close> is the state when \<^verbatim>\<open>Start\<close> reaches \<^verbatim>\<open>a.ui.Run()\<close>: the ticker runs, the wait
  group counts the \<^verbatim>\<open>updateLoop\<close> goroutine (the only \<^verbatim>\<open>wg.Add\<close> of the file), the initial
  update is spawned. \<^verbatim>\<open>updateMetrics\<close> spawns one goroutine per query and returns; it calls
  neither \<^verbatim>\<open>wg.Add\<close> nor \<^verbatim>\<open>wg.Done\<close>. \<open>Stop\<close> executes the next statement of \<^verbatim>\<open>Stop\<close>;
  \<^verbatim>\<open>wg.Wait()\<close> can be passed only when the counter is zero.
\<close>

definition Start :: runtime where
  "Start =
     \<lparr>ticker_running = True, ctx_done = False, ui_running = True, wg = 1, loop_alive = True,
      initial_update_pending = True, in_flight = [], stop_at = Idle, backend_closed = False\<rparr>"

definition updateMetrics :: "nat \<Rightarrow> runtime \<Rightarrow> runtime" where
  "updateMetrics n r = r\<lparr>in_flight := in_flight r @ [0 ..< n]\<rparr>"

definition Stop :: "runtime \<Rightarrow> runtime option" where
  "Stop r =
     (case stop_at r of
        Idle \<Rightarrow> Some (r\<lparr>ticker_running := False, stop_at := TickerStopped\<rparr>)
      | TickerStopped \<Rightarrow> Some (r\<lparr>ctx_done := True, stop_at := CtxCancelled\<rparr>)
      | CtxCancelled \<Rightarrow> Some (r\<lparr>ui_running := False, stop_at := UIStopped\<rparr>)
      | UIStopped \<Rightarrow> if wg r = 0 then Some (r\<lparr>stop_at := Waited\<rparr>) else None
      | Waited \<Rightarrow> Some (r\<lparr>backend_closed := True, stop_at := BackendClosed\<rparr>)
      | BackendClosed \<Rightarrow> None)"

text \<open>
  One step of one goroutine (\<open>None\<close>: the step is not enabled): the initial update runs,
  \<^verbatim>\<open>updateLoop\<close> receives a tick and calls \<^verbatim>\<open>updateMetrics\<close>, a query goroutine returns,
  \<^verbatim>\<open>updateLoop\<close> receives from \<^verbatim>\<open>ctx.Done()\<close> and its deferred \<^verbatim>\<open>wg.Done()\<close> runs, or \<^verbatim>\<open>Stop\<close>
  advances. \<open>run\<close> executes a schedule.
\<close>

fun fire :: "nat \<Rightarrow> action \<Rightarrow> runtime \<Rightarrow> runtime option" where
  "fire n InitialUpdate r =
     (if initial_update_pending r
      then Some (updateMetrics n (r\<lparr>initial_update_pending := False\<rparr>)) else None)"
| "fire n Tick r =
     (if loop_alive r \<and> ticker_running r then Some (updateMetrics n r) else None)"
| "fire n (QueryReturns i) r =
     (if i \<in> set (in_flight r) then Some (r\<lparr>in_flight := remove1 i (in_flight r)\<rparr>)
      else None)"
| "fire n LoopSeesDone r =
     (if loop_alive r \<and> ctx_done r then Some (r\<lparr>loop_alive := False, wg := wg r - 1\<rparr>)
      else None)"
| "fire n StopStep r = Stop r"

fun run :: "nat \<Rightarrow> action list \<Rightarrow> runtime \<Rightarrow> runtime option" where
  "run n [] r = Some r"
| "run n (a # as) r = (case fire n a r of None \<Rightarrow> None | Some r' \<Rightarrow> run n as r')"

text \<open>
  What holds in every state a schedule reaches from \<open>Start\<close>: the wait group counts
  exactly the \<^verbatim>\<open>updateLoop\<close> goroutine (so \<^verbatim>\<open>wg.Done()\<close> never takes the counter below zero),
  the loop ends only after the cancellation, and the statements of \<^verbatim>\<open>Stop\<close> take effect in
  their order.
\<close>

definition stop_inv :: "runtime \<Rightarrow> bool" where
  "stop_inv r \<longleftrightarrow>
     (wg r = (if loop_alive r then 1 else 0)) \<and>
     (\<not> loop_alive r \<longrightarrow> ctx_done r) \<and>
     (ctx_done r \<longrightarrow> stop_at r \<noteq> Idle \<and> stop_at r \<noteq> TickerStopped) \<and>
     (stop_at r \<noteq> Idle \<longrightarrow> \<not> ticker_running r) \<and>
     (stop_at r = Waited \<or> stop_at r = BackendClosed \<longrightarrow> \<not> loop_alive r) \<and>
     (backend_closed r \<longrightarrow> stop_at r = BackendClosed)"

section \<open>Auxiliary facts\<close>

lemma go_rem_nonneg: "0 \<le> a \<Longrightarrow> 0 < b \<Longrightarrow> go_rem a b = a mod b"
  by (cases "a = 0") (simp_all add: go_rem_def)

lemma add_items_in_range:
  "\<forall>i \<in> set js. 0 \<le> i \<and> i < int (length (panels t)) \<Longrightarrow>
     add_items t js =
       Inr (t\<lparr>scrollView := scrollView t @ map (\<lambda>i. (nat i, i = focusIndex t)) js\<rparr>)"
  by (induction js arbitrary: t) simp_all

lemma scrollOffset_update_same:
  "scrollOffset t = k \<Longrightarrow> t\<lparr>scrollView := sv, scrollOffset := k\<rparr> = t\<lparr>scrollView := sv\<rparr>"
  by (cases t) simp

lemma updateScrollView_result:
  assumes "panels t \<noteq> []"
  shows "updateScrollView t =
     Inr (t\<lparr>scrollView := map (\<lambda>i. (nat i, i = focusIndex t))
              [max 0 (min (scrollOffset t) (max 0 (int (length (panels t)) - visiblePanels t)))
               .. min (max 0 (min (scrollOffset t) (max 0 (int (length (panels t)) - visiblePanels t)))
                + visiblePanels t) (int (length (panels t))) - 1],
            scrollOffset := max 0 (min (scrollOffset t)
                                    (max 0 (int (length (panels t)) - visiblePanels t)))\<rparr>)"
  using assms
  by (auto simp: updateScrollView_def Let_def add_items_in_range max_def min_def
        scrollOffset_update_same)

lemma length_colour_panels [simp]: "length (colour_panels f i ps) = length ps"
  by (induction ps arbitrary: i) simp_all

lemma scrollOffset_self: "t\<lparr>scrollOffset := scrollOffset t\<rparr> = t"
  by (cases t) simp

lemma scrollToShowFocus_eq:
  assumes "panels t \<noteq> []"
  shows "scrollToShowFocus t =
           updateScrollView
             (t\<lparr>scrollOffset := code_adjust (focusIndex t) (scrollOffset t) (visiblePanels t)\<rparr>)"
  using assms
  by (simp add: scrollToShowFocus_def Let_def code_adjust_def scrollOffset_self)

lemma clamp_adjust_spec:
  "1 \<le> v \<Longrightarrow>
     max 0 (min (code_adjust f off v) (max 0 (n - v))) = spec_scroll_offset f off v n"
  by (simp add: spec_scroll_offset_def code_adjust_def Let_def)

lemma scrollToShowFocus_result:
  assumes "panels t \<noteq> []"
  shows "\<exists>sv off. scrollToShowFocus t = Inr (t\<lparr>scrollView := sv, scrollOffset := off\<rparr>) \<and>
           (1 \<le> visiblePanels t \<longrightarrow>
              off = spec_scroll_offset (focusIndex t) (scrollOffset t)
                      (visiblePanels t) (int (length (panels t))))"
proof -
  let ?u = "t\<lparr>scrollOffset := code_adjust (focusIndex t) (scrollOffset t) (visiblePanels t)\<rparr>"
  from assms have "panels ?u \<noteq> []" by simp
  from updateScrollView_result [OF this] scrollToShowFocus_eq [OF assms]
  have "\<exists>sv. scrollToShowFocus t =
          Inr (t\<lparr>scrollView := sv,
                 scrollOffset := max 0 (min (code_adjust (focusIndex t) (scrollOffset t)
                                               (visiblePanels t))
                                    (max 0 (int (length (panels t)) - visiblePanels t)))\<rparr>)"
    by auto
  then show ?thesis
    using clamp_adjust_spec [of "visiblePanels t" "focusIndex t" "scrollOffset t"
                                "int (length (panels t))"]
    by auto
qed

lemma updateFocus_fields:
  assumes "app t \<noteq> None" and "0 \<le> focusIndex t" and "focusIndex t < int (length (panels t))"
  shows "\<exists>t'. updateFocus t = Inr t' \<and> focusIndex t' = focusIndex t \<and>
           scrollOffset t' = scrollOffset t \<and> visiblePanels t' = visiblePanels t \<and>
           length (panels t') = length (panels t) \<and> app t' \<noteq> None \<and>
           histories t' = histories t \<and> timeRange t' = timeRange t \<and>
           scrollView t' = scrollView t"
  using assms by (auto simp: updateFocus_def Let_def)

lemma refocus_fields:
  assumes "app t \<noteq> None" and "0 \<le> f" and "f < int (length (panels t))"
  shows "\<exists>t'. (case scrollToShowFocus (t\<lparr>focusIndex := f\<rparr>) of
                  Inl e \<Rightarrow> Inl e | Inr u \<Rightarrow> updateFocus u) = Inr t' \<and>
           focusIndex t' = f \<and>
           (1 \<le> visiblePanels t \<longrightarrow>
              scrollOffset t' = spec_scroll_offset f (scrollOffset t) (visiblePanels t)
                               (int (length (panels t)))) \<and>
           visiblePanels t' = visiblePanels t \<and>
           length (panels t') = length (panels t) \<and> app t' \<noteq> None \<and>
           histories t' = histories t \<and> timeRange t' = timeRange t"
proof -
  let ?u = "t\<lparr>focusIndex := f\<rparr>"
  from assms have "panels ?u \<noteq> []" by auto
  from scrollToShowFocus_result [OF this] obtain sv off where
    s: "scrollToShowFocus ?u = Inr (?u\<lparr>scrollView := sv, scrollOffset := off\<rparr>)"
    and o: "1 \<le> visiblePanels ?u \<longrightarrow>
              off = spec_scroll_offset (focusIndex ?u) (scrollOffset ?u)
                      (visiblePanels ?u) (int (length (panels ?u)))"
    by blast
  let ?w = "?u\<lparr>scrollView := sv, scrollOffset := off\<rparr>"
  from assms have "app ?w \<noteq> None" "0 \<le> focusIndex ?w" "focusIndex ?w < int (length (panels ?w))"
    by auto
  from updateFocus_fields [OF this] s o show ?thesis by auto
qed

lemma spec_scroll_offset_window:
  assumes "0 \<le> f" and "f < n" and "1 \<le> v"
  shows "spec_scroll_offset f off v n \<le> f" and "f \<le> spec_scroll_offset f off v n + v - 1"
    and "0 \<le> spec_scroll_offset f off v n" and "spec_scroll_offset f off v n \<le> max 0 (n - v)"
  using assms by (auto simp: spec_scroll_offset_def Let_def max_def min_def)

lemma focusNext_fields:
  assumes "nav_ok t"
  shows "\<exists>t'. focusNext t = Inr t' \<and>
           focusIndex t' = (focusIndex t + 1) mod int (length (panels t)) \<and>
           (1 \<le> visiblePanels t \<longrightarrow>
              scrollOffset t' = spec_scroll_offset (focusIndex t') (scrollOffset t)
                                  (visiblePanels t) (int (length (panels t)))) \<and>
           visiblePanels t' = visiblePanels t \<and>
           length (panels t') = length (panels t) \<and> app t' \<noteq> None \<and>
           histories t' = histories t \<and> timeRange t' = timeRange t"
proof -
  let ?n = "int (length (panels t))"
  from assms have n: "0 < ?n" and f: "0 \<le> focusIndex t" and a: "app t \<noteq> None"
    by (auto simp: nav_ok_def)
  have g: "go_rem (focusIndex t + 1) ?n = (focusIndex t + 1) mod ?n"
    using n f by (simp add: go_rem_nonneg)
  have "0 \<le> (focusIndex t + 1) mod ?n" and "(focusIndex t + 1) mod ?n < ?n"
    using n by simp_all
  from refocus_fields [OF a this] obtain t' where
    "(case scrollToShowFocus (t\<lparr>focusIndex := (focusIndex t + 1) mod ?n\<rparr>) of
        Inl e \<Rightarrow> Inl e | Inr u \<Rightarrow> updateFocus u) = Inr t'"
    and r: "focusIndex t' = (focusIndex t + 1) mod ?n"
      "1 \<le> visiblePanels t \<longrightarrow>
         scrollOffset t' = spec_scroll_offset ((focusIndex t + 1) mod ?n) (scrollOffset t)
                             (visiblePanels t) ?n"
      "visiblePanels t' = visiblePanels t" "length (panels t') = length (panels t)"
      "app t' \<noteq> None" "histories t' = histories t" "timeRange t' = timeRange t"
    by blast
  then have "focusNext t = Inr t'" using n g by (simp add: focusNext_def)
  with r show ?thesis by simp
qed

lemma focusPrev_fields:
  assumes "nav_ok t"
  shows "\<exists>t'. focusPrev t = Inr t' \<and>
           focusIndex t' = (focusIndex t - 1) mod int (length (panels t)) \<and>
           (1 \<le> visiblePanels t \<longrightarrow>
              scrollOffset t' = spec_scroll_offset (focusIndex t') (scrollOffset t)
                                  (visiblePanels t) (int (length (panels t)))) \<and>
           visiblePanels t' = visiblePanels t \<and>
           length (panels t') = length (panels t) \<and> app t' \<noteq> None \<and>
           histories t' = histories t \<and> timeRange t' = timeRange t"
proof -
  let ?n = "int (length (panels t))"
  from assms have n: "0 < ?n" and f: "0 \<le> focusIndex t" and a: "app t \<noteq> None"
    by (auto simp: nav_ok_def)
  have "0 \<le> focusIndex t - 1 + ?n" using n f by linarith
  then have "go_rem (focusIndex t - 1 + ?n) ?n = (focusIndex t - 1 + ?n) mod ?n"
    using n by (rule go_rem_nonneg)
  then have g: "go_rem (focusIndex t - 1 + ?n) ?n = (focusIndex t - 1) mod ?n"
    by simp
  have "0 \<le> (focusIndex t - 1) mod ?n" and "(focusIndex t - 1) mod ?n < ?n"
    using n by simp_all
  from refocus_fields [OF a this] obtain t' where
    "(case scrollToShowFocus (t\<lparr>focusIndex := (focusIndex t - 1) mod ?n\<rparr>) of
        Inl e \<Rightarrow> Inl e | Inr u \<Rightarrow> updateFocus u) = Inr t'"
    and r: "focusIndex t' = (focusIndex t - 1) mod ?n"
      "1 \<le> visiblePanels t \<longrightarrow>
         scrollOffset t' = spec_scroll_offset ((focusIndex t - 1) mod ?n) (scrollOffset t)
                             (visiblePanels t) ?n"
      "visiblePanels t' = visiblePanels t" "length (panels t') = length (panels t)"
      "app t' \<noteq> None" "histories t' = histories t" "timeRange t' = timeRange t"
    by blast
  then have "focusPrev t = Inr t'" using n g by (simp add: focusPrev_def)
  with r show ?thesis by simp
qed

lemma repeat_focusNext:
  assumes "nav_ok t"
  shows "\<exists>t'. repeat_nav k focusNext t = Inr t' \<and> nav_ok t' \<and>
           length (panels t') = length (panels t) \<and>
           focusIndex t' = (focusIndex t + int k) mod int (length (panels t))"
  using assms
proof (induction k arbitrary: t)
  case 0
  then show ?case by (simp add: nav_ok_def)
next
  case (Suc k)
  from focusNext_fields [OF Suc.prems] obtain t1 where
    t1: "focusNext t = Inr t1"
      "focusIndex t1 = (focusIndex t + 1) mod int (length (panels t))"
      "length (panels t1) = length (panels t)" "app t1 \<noteq> None"
    by blast
  from Suc.prems have n: "0 < int (length (panels t))" by (auto simp: nav_ok_def)
  from t1 n have ok: "nav_ok t1" by (simp add: nav_ok_def)
  from Suc.IH [OF ok] obtain t' where
    t': "repeat_nav k focusNext t1 = Inr t'" "nav_ok t'"
      "length (panels t') = length (panels t1)"
      "focusIndex t' = (focusIndex t1 + int k) mod int (length (panels t1))"
    by blast
  have "(focusIndex t1 + int k) mod int (length (panels t1)) =
        (focusIndex t + int (Suc k)) mod int (length (panels t))"
    unfolding t1 by (simp add: mod_simps ac_simps)
  with t1(1) t' t1(3) show ?case by simp
qed

lemma NewTUI_fields:
  "\<exists>t. (NewTUI qs :: panic + 'v TUI) = Inr t \<and> histories t = map new_history qs \<and>
        length (panels t) = length qs \<and> focusIndex t = 0 \<and> scrollOffset t = 0 \<and>
        visiblePanels t = (if length qs \<le> 2 then int (length qs) else 3) \<and>
        app t \<noteq> None \<and> timeRange t = Some FooterInitial"
proof (cases "qs = []")
  case True
  then show ?thesis
    by (simp add: NewTUI_def setupUI_def updateScrollView_def updateFocus_def)
next
  case False
  then show ?thesis
    by (auto simp: NewTUI_def setupUI_def updateScrollView_result updateFocus_def Let_def)
qed







lemma updateTimeRange_frame [simp]:
  "histories (updateTimeRange t) = histories t"
  "panels (updateTimeRange t) = panels t"
  "app (updateTimeRange t) = app t"
  by (simp_all add: updateTimeRange_def split: option.splits)

lemma set_panel_text_result:
  "0 \<le> index \<Longrightarrow> index < int (length (panels t)) \<Longrightarrow>
     set_panel_text t index txt =
       Inr (t\<lparr>panels := (panels t)[nat index := (panels t ! nat index)\<lparr>content := txt\<rparr>]\<rparr>)"
  by (simp add: set_panel_text_def)


lemma render_nil:
  assumes "0 \<le> index" and "index < int (length (histories t))"
    and "index < int (length (panels t))"
    and "TimeSeries (histories t ! nat index) = None"
  shows "renderTimeSeriesGraph t index = Inl NilDereference"
  using assms by (simp add: renderTimeSeriesGraph_def)

lemma update_histories:
  assumes "0 \<le> index" and "index < int (length (histories t))"
  shows "histories (UpdateTimeSeries t index ts err) =
           (histories t)[nat index :=
              (if err \<noteq> None then (histories t ! nat index)\<lparr>LastError := err\<rparr>
               else (histories t ! nat index)\<lparr>TimeSeries := ts, LastError := None\<rparr>)]"
    and "panels (UpdateTimeSeries t index ts err) = panels t"
    and "timeRange (UpdateTimeSeries t index ts err) = timeRange t"
  using assms by (auto simp: UpdateTimeSeries_def Let_def split: option.splits)


lemma NewTUI_demo: "NewTUI demo_queries = Inr demo_tui"
  by (simp add: NewTUI_def setupUI_def demo_queries_def demo_tui_def updateScrollView_def
        updateFocus_def Let_def upto.simps)

lemma NewTUI_empty: "NewTUI [] = Inr empty_tui"
  by (simp add: NewTUI_def setupUI_def empty_tui_def updateScrollView_def updateFocus_def)

lemma demo_sizes [simp]:
  "length (panels demo_tui) = 4" "length (histories demo_tui) = 4"
  by (simp_all add: demo_tui_def demo_queries_def)


lemma series_non_nil_update:
  assumes "series_non_nil t" and "err = None \<longrightarrow> ts \<noteq> None"
  shows "series_non_nil (UpdateTimeSeries t index ts err)"
proof (cases "0 \<le> index \<and> index < int (length (histories t))")
  case False
  then have "UpdateTimeSeries t index ts err = t" by (auto simp: UpdateTimeSeries_def)
  with assms show ?thesis by simp
next
  case True
  then have r: "0 \<le> index" "index < int (length (histories t))" by simp_all
  then have i: "nat index < length (histories t)" by simp
  let ?h = "if err \<noteq> None then (histories t ! nat index)\<lparr>LastError := err\<rparr>
            else (histories t ! nat index)\<lparr>TimeSeries := ts, LastError := None\<rparr>"
  have old: "TimeSeries h \<noteq> None" if "h \<in> set (histories t)" for h
    using that assms(1) by (simp add: series_non_nil_def list_all_iff)
  from i have "histories t ! nat index \<in> set (histories t)" by (rule nth_mem)
  then have new: "TimeSeries ?h \<noteq> None" using old assms(2) by auto
  have "TimeSeries h \<noteq> None" if "h \<in> set ((histories t)[nat index := ?h])" for h
    using that old new set_update_subset_insert [of "histories t" "nat index" ?h] by blast
  then show ?thesis
    unfolding series_non_nil_def list_all_iff update_histories(1) [OF r] by blast
qed

lemma Validate_unsupported:
  "\<not> supported_backend (Backend cfg) \<Longrightarrow> Validate cfg = Inl (unsupported_backend (Backend cfg))"
  by (simp add: Validate_def validate_backend_def supported_backend_def)

lemma createBackend_Inr:
  assumes "createBackend w cfg = Inr c"
  shows "supported_backend (Backend cfg)"
    and "client_Name c = (if Backend cfg = [] then ''prometheus'' else Backend cfg)"
  using assms
  by (auto simp: createBackend_def supported_backend_def prom_NewClient_def
        influxdb_NewClient_def influxdb1_NewClient_def mock_NewClient_def
        split: if_splits option.splits)

lemma stop_inv_fire: "stop_inv r \<Longrightarrow> fire n a r = Some r' \<Longrightarrow> stop_inv r'"
  by (cases a)
     (auto simp: stop_inv_def updateMetrics_def Stop_def split: if_splits stop_pc.splits)

lemma stop_inv_run: "stop_inv r \<Longrightarrow> run n as r = Some r' \<Longrightarrow> stop_inv r'"
proof (induction as arbitrary: r)
  case Nil
  then show ?case by simp
next
  case (Cons a as)
  then show ?case by (auto split: option.splits dest: stop_inv_fire)
qed

lemma close_after_loop_exit:
  assumes "run n as Start = Some r" and "backend_closed r"
  shows "\<not> ticker_running r \<and> ctx_done r \<and> \<not> loop_alive r \<and> wg r = 0"
proof -
  have "stop_inv Start" by (simp add: stop_inv_def Start_def)
  from stop_inv_run [OF this assms(1)] assms(2) show ?thesis
    by (auto simp: stop_inv_def)
qed

subsection \<open>Reachable states and the frame of rendering\<close>

lemma NewTUI_view_ok:
  assumes "qs \<noteq> []" and "NewTUI qs = Inr t"
  shows "view_ok t"
  using NewTUI_fields [of qs, where ?'v = 'a] assms
  by (cases qs) (auto simp: view_ok_def nav_ok_def)

lemma view_ok_focusNext:
  assumes "view_ok t" and "focusNext t = Inr t'"
  shows "view_ok t'"
proof -
  from assms(1) have n: "nav_ok t" and "0 < int (length (panels t))"
    by (auto simp: view_ok_def nav_ok_def)
  with focusNext_fields [OF n] assms show ?thesis
    by (auto simp: view_ok_def nav_ok_def)
qed

lemma view_ok_focusPrev:
  assumes "view_ok t" and "focusPrev t = Inr t'"
  shows "view_ok t'"
proof -
  from assms(1) have n: "nav_ok t" and "0 < int (length (panels t))"
    by (auto simp: view_ok_def nav_ok_def)
  with focusPrev_fields [OF n] assms show ?thesis
    by (auto simp: view_ok_def nav_ok_def)
qed

lemma view_ok_UpdateTimeSeries:
  "view_ok t \<Longrightarrow> view_ok (UpdateTimeSeries t index ts err)"
  by (auto simp: view_ok_def nav_ok_def UpdateTimeSeries_def Let_def split: option.splits)

lemma run_update_histories:
  assumes "run_update t u = Inr t'"
  shows "histories t' = histories t"
  using assms
  by (auto simp: run_update_def set_panel_text_def renderTimeSeriesGraph_def Let_def
        split: option.splits if_splits sum.splits)

lemma run_all_histories:
  "run_all t us = Inr t' \<Longrightarrow> histories t' = histories t"
proof (induction us arbitrary: t)
  case Nil
  then show ?case by simp
next
  case (Cons u us)
  then show ?case
    by (auto split: sum.splits dest: run_update_histories)
qed

lemma drain_histories:
  "drain t = Inr t' \<Longrightarrow> histories t' = histories t"
  by (auto simp: drain_def split: option.splits dest: run_all_histories)

section \<open>Focus changes keep the focused panel in the visible window\<close>

text \<open>
  C1. In every state with at least one panel, a focus index inside the panel list and a
  visible count of at least one, \<^verbatim>\<open>focusNext\<close> and \<^verbatim>\<open>focusPrev\<close> return a state in which
  \<open>scroll offset \<le> focus index \<le> scroll offset + visible count - 1\<close>. The new scroll
  offset is the one the specification describes (\<open>spec_scroll_offset\<close>: focus index -
  visible count + 1 when the focus is right of the window, the focus index when it is
  left of it, then clamped to \<open>[0, max 0 (panel count - visible count)]\<close>), and the focus
  index is the wrapped-around one: \<^verbatim>\<open>scrollToShowFocus\<close> leaves it as it finds it.
\<close>

theorem focus_change_scrolls_focus_into_view:
  assumes "view_ok t"
  shows "(\<exists>t'. focusNext t = Inr t' \<and>
            focusIndex t' = go_rem (focusIndex t + 1) (int (length (panels t))) \<and>
            scrollOffset t' = spec_scroll_offset (focusIndex t') (scrollOffset t)
                                (visiblePanels t) (int (length (panels t))) \<and>
            focus_visible t' \<and> offset_in_bounds t') \<and>
         (\<exists>t'. focusPrev t = Inr t' \<and>
            focusIndex t' = go_rem (focusIndex t - 1 + int (length (panels t)))
                              (int (length (panels t))) \<and>
            scrollOffset t' = spec_scroll_offset (focusIndex t') (scrollOffset t)
                                (visiblePanels t) (int (length (panels t))) \<and>
            focus_visible t' \<and> offset_in_bounds t') \<and>
         (\<exists>t'. scrollToShowFocus t = Inr t' \<and> focusIndex t' = focusIndex t \<and>
            scrollOffset t' = spec_scroll_offset (focusIndex t) (scrollOffset t)
                                (visiblePanels t) (int (length (panels t))) \<and>
            focus_visible t' \<and> offset_in_bounds t')"
proof -
  let ?n = "int (length (panels t))"
  from assms have nav: "nav_ok t" and v: "1 \<le> visiblePanels t"
    by (simp_all add: view_ok_def)
  from nav have n: "0 < ?n" and f: "0 \<le> focusIndex t" "focusIndex t < ?n"
    by (auto simp: nav_ok_def)
  have gn: "go_rem (focusIndex t + 1) ?n = (focusIndex t + 1) mod ?n"
    using n f by (simp add: go_rem_nonneg)
  have "0 \<le> focusIndex t - 1 + ?n" using n f by linarith
  then have "go_rem (focusIndex t - 1 + ?n) ?n = (focusIndex t - 1 + ?n) mod ?n"
    using n by (rule go_rem_nonneg)
  then have gp: "go_rem (focusIndex t - 1 + ?n) ?n = (focusIndex t - 1) mod ?n"
    by simp
  have settle: "focus_visible u \<and> offset_in_bounds u"
    if "0 \<le> focusIndex u" "focusIndex u < ?n" "visiblePanels u = visiblePanels t"
      "length (panels u) = length (panels t)"
      "scrollOffset u = spec_scroll_offset (focusIndex u) off (visiblePanels t) ?n"
    for u :: "'a TUI" and off
    using that v spec_scroll_offset_window [of "focusIndex u" ?n "visiblePanels t" off]
    by (simp add: focus_visible_def offset_in_bounds_def)
  have "0 \<le> (focusIndex t + 1) mod ?n" "(focusIndex t + 1) mod ?n < ?n"
    "0 \<le> (focusIndex t - 1) mod ?n" "(focusIndex t - 1) mod ?n < ?n"
    using n by simp_all
  note rng = this
  from focusNext_fields [OF nav] v obtain a where
    a: "focusNext t = Inr a" "focusIndex a = (focusIndex t + 1) mod ?n"
       "scrollOffset a = spec_scroll_offset (focusIndex a) (scrollOffset t) (visiblePanels t) ?n"
       "visiblePanels a = visiblePanels t" "length (panels a) = length (panels t)"
    by blast
  from focusPrev_fields [OF nav] v obtain b where
    b: "focusPrev t = Inr b" "focusIndex b = (focusIndex t - 1) mod ?n"
       "scrollOffset b = spec_scroll_offset (focusIndex b) (scrollOffset t) (visiblePanels t) ?n"
       "visiblePanels b = visiblePanels t" "length (panels b) = length (panels t)"
    by blast
  from n have "panels t \<noteq> []" by auto
  from scrollToShowFocus_result [OF this] v obtain sv where
    c: "scrollToShowFocus t =
          Inr (t\<lparr>scrollView := sv,
                 scrollOffset := spec_scroll_offset (focusIndex t) (scrollOffset t)
                                   (visiblePanels t) ?n\<rparr>)"
    by blast
  have 1: "focus_visible a \<and> offset_in_bounds a"
    using a rng by (intro settle) simp_all
  have 2: "focus_visible b \<and> offset_in_bounds b"
    using b rng by (intro settle) simp_all
  have 3: "focus_visible (t\<lparr>scrollView := sv,
                 scrollOffset := spec_scroll_offset (focusIndex t) (scrollOffset t)
                                   (visiblePanels t) ?n\<rparr>) \<and>
           offset_in_bounds (t\<lparr>scrollView := sv,
                 scrollOffset := spec_scroll_offset (focusIndex t) (scrollOffset t)
                                   (visiblePanels t) ?n\<rparr>)"
    using f by (intro settle) simp_all
  from a 1 gn have A: "\<exists>t'. focusNext t = Inr t' \<and>
            focusIndex t' = go_rem (focusIndex t + 1) ?n \<and>
            scrollOffset t' = spec_scroll_offset (focusIndex t') (scrollOffset t)
                                (visiblePanels t) ?n \<and>
            focus_visible t' \<and> offset_in_bounds t'" by simp
  from b 2 gp have B: "\<exists>t'. focusPrev t = Inr t' \<and>
            focusIndex t' = go_rem (focusIndex t - 1 + ?n) ?n \<and>
            scrollOffset t' = spec_scroll_offset (focusIndex t') (scrollOffset t)
                                (visiblePanels t) ?n \<and>
            focus_visible t' \<and> offset_in_bounds t'" by simp
  from c 3 have C: "\<exists>t'. scrollToShowFocus t = Inr t' \<and> focusIndex t' = focusIndex t \<and>
            scrollOffset t' = spec_scroll_offset (focusIndex t) (scrollOffset t)
                                (visiblePanels t) ?n \<and>
            focus_visible t' \<and> offset_in_bounds t'" by simp
  from A B C show ?thesis by blast
qed

theorem focus_change_scrolls_focus_into_view_witness:
  "view_ok (demo_tui\<lparr>focusIndex := 2\<rparr>) \<and>
   (\<exists>t'. focusNext (demo_tui\<lparr>focusIndex := 2\<rparr>) = Inr t' \<and> focusIndex t' = 3 \<and>
          scrollOffset t' = 1 \<and> focus_visible t') \<and>
   (\<exists>t'. focusPrev (demo_tui\<lparr>focusIndex := 2\<rparr>) = Inr t' \<and> focusIndex t' = 1 \<and>
          scrollOffset t' = 0 \<and> focus_visible t')"
proof -
  have h: "view_ok (demo_tui\<lparr>focusIndex := 2\<rparr>)"
    by (simp add: view_ok_def nav_ok_def) (simp add: demo_tui_def)
  have "go_rem 3 4 = 3" "go_rem 5 4 = 1" by (simp_all add: go_rem_def)
  moreover have "spec_scroll_offset 3 0 3 4 = 1" "spec_scroll_offset 1 0 3 4 = 0"
    by (simp_all add: spec_scroll_offset_def)
  moreover have "scrollOffset demo_tui = 0" "visiblePanels demo_tui = 3"
    by (simp_all add: demo_tui_def)
  ultimately show ?thesis
    using h focus_change_scrolls_focus_into_view [OF h] by auto
qed

section \<open>Shutdown does not wait for the query goroutines\<close>

text \<open>
  C2. \<^verbatim>\<open>Stop\<close> stops the ticker, cancels the context, stops the UI, waits on the wait group
  and then closes the backend; but the wait group counts the \<^verbatim>\<open>updateLoop\<close> goroutine only.
  In the schedule below, with one query, the initial update spawns its query goroutine,
  \<^verbatim>\<open>Stop\<close> runs up to \<^verbatim>\<open>wg.Wait()\<close>, \<^verbatim>\<open>updateLoop\<close> sees the cancellation and returns, the wait
  is over and the backend is closed: the query goroutine is still in flight.
\<close>

theorem close_overtakes_query_in_flight:
  "\<exists>r. run 1 [InitialUpdate, StopStep, StopStep, StopStep, LoopSeesDone, StopStep, StopStep]
          Start = Some r \<and>
       backend_closed r \<and> in_flight r = [0]"
  by (simp add: Start_def updateMetrics_def Stop_def)

section \<open>An error update keeps the stored series\<close>

text \<open>
  C3. For every in-range index and every error \<open>e\<close>, an update with that error (and any
  series argument, \<^verbatim>\<open>nil\<close> included) changes the history list in one place only: the
  history at the index gets \<open>e\<close> as its latest error, and keeps the series (and name) it
  had. Every other history is as before. When the queued closure runs, the panel shows the
  error text and the histories are still the same: a failed refresh does not clear the
  data stored before it.
\<close>

theorem error_update_preserves_series:
  assumes "0 \<le> index" and "index < int (length (histories t))"
  shows "histories (UpdateTimeSeries t index ts (Some e)) =
           (histories t)[nat index := (histories t ! nat index)\<lparr>LastError := Some e\<rparr>] \<and>
         LastError (histories (UpdateTimeSeries t index ts (Some e)) ! nat index) = Some e \<and>
         TimeSeries (histories (UpdateTimeSeries t index ts (Some e)) ! nat index) =
           TimeSeries (histories t ! nat index) \<and>
         (\<forall>j < length (histories t). j \<noteq> nat index \<longrightarrow>
            histories (UpdateTimeSeries t index ts (Some e)) ! j = histories t ! j) \<and>
         (index < int (length (panels t)) \<longrightarrow>
            (\<exists>t'. run_update (UpdateTimeSeries t index ts (Some e)) (index, Some e) = Inr t' \<and>
                   histories t' = histories (UpdateTimeSeries t index ts (Some e)) \<and>
                   content (panels t' ! nat index) = ErrorText e))"
proof -
  let ?u = "UpdateTimeSeries t index ts (Some e)"
  have h: "histories ?u = (histories t)[nat index := (histories t ! nat index)\<lparr>LastError := Some e\<rparr>]"
    and p: "panels ?u = panels t"
    using update_histories [OF assms, of ts "Some e"] by simp_all
  from assms have i: "nat index < length (histories t)" by simp
  have "\<exists>t'. run_update ?u (index, Some e) = Inr t' \<and> histories t' = histories ?u \<and>
              content (panels t' ! nat index) = ErrorText e"
    if "index < int (length (panels t))"
    using that assms(1) p by (simp add: run_update_def set_panel_text_result)
  with h i show ?thesis by simp
qed

theorem error_update_preserves_series_witness:
  "(0::int) \<le> 1 \<and> 1 < int (length (histories (UpdateTimeSeries demo_tui 1 (Some demo_series) None))) \<and>
   LastError (histories (UpdateTimeSeries (UpdateTimeSeries demo_tui 1 (Some demo_series) None)
                           1 None (Some ''timeout'')) ! 1) = Some ''timeout'' \<and>
   TimeSeries (histories (UpdateTimeSeries (UpdateTimeSeries demo_tui 1 (Some demo_series) None)
                           1 None (Some ''timeout'')) ! 1) = Some demo_series \<and>
   histories (UpdateTimeSeries (UpdateTimeSeries demo_tui 1 (Some demo_series) None)
                1 None (Some ''timeout'')) ! 0 = histories demo_tui ! 0 \<and>
   (\<exists>t'. run_update (UpdateTimeSeries (UpdateTimeSeries demo_tui 1 (Some demo_series) None)
                          1 None (Some ''timeout'')) (1, Some ''timeout'') = Inr t' \<and>
          TimeSeries (histories t' ! 1) = Some demo_series \<and>
          content (panels t' ! 1) = ErrorText ''timeout'')"
proof -
  let ?t = "UpdateTimeSeries demo_tui 1 (Some demo_series) None"
  have a: "(0::int) \<le> 1" by simp
  have l: "length (histories ?t) = 4"
    using update_histories(1) [of 1 demo_tui "Some demo_series" None] by simp
  then have b: "1 < int (length (histories ?t))" by simp
  have s: "TimeSeries (histories ?t ! 1) = Some demo_series"
    using update_histories(1) [of 1 demo_tui "Some demo_series" None] by simp
  have p: "length (panels ?t) = 4"
    using update_histories(2) [of 1 demo_tui "Some demo_series" None] by simp
  have z: "histories ?t ! 0 = histories demo_tui ! 0"
    using update_histories(1) [of 1 demo_tui "Some demo_series" None] by simp
  show ?thesis
    using a b s l p z error_update_preserves_series [OF a b, of None "''timeout''"] by auto
qed

section \<open>A successful update replaces the stored series\<close>



section \<open>The time-range footer\<close>



section \<open>Out-of-range updates\<close>

text \<open>
  C6. For every index outside \<open>[0, query count)\<close>, negative ones included, an update with
  any series and any error returns the state it was given: no stored series or error
  changes, nothing is queued, and the function has no failing branch.
\<close>

theorem update_out_of_range_noop:
  "index < 0 \<or> int (length (histories t)) \<le> index \<Longrightarrow>
     UpdateTimeSeries t index timeSeries err = t"
  by (auto simp: UpdateTimeSeries_def)

theorem update_out_of_range_noop_witness:
  "((-1::int) < 0 \<or> int (length (histories demo_tui)) \<le> -1) \<and>
   UpdateTimeSeries demo_tui (-1) (Some demo_series) None = demo_tui \<and>
   ((10::int) < 0 \<or> int (length (histories demo_tui)) \<le> 10) \<and>
   UpdateTimeSeries demo_tui 10 None (Some ''timeout'') = demo_tui"
  using update_out_of_range_noop [of "-1" demo_tui "Some demo_series" None]
    update_out_of_range_noop [of 10 demo_tui None "Some ''timeout''"]
  by simp

section \<open>Focus wraps around\<close>

text \<open>
  C7. With \<open>n > 0\<close> panels and a focus index in \<open>[0, n)\<close>, \<open>n\<close> applications of
  \<^verbatim>\<open>focusNext\<close> bring the focus index back to where it started; \<^verbatim>\<open>focusPrev\<close> undoes
  \<^verbatim>\<open>focusNext\<close> and the other way round, \<^verbatim>\<open>focusNext\<close> wraps from \<open>n - 1\<close> to \<open>0\<close> and
  \<^verbatim>\<open>focusPrev\<close> from \<open>0\<close> to \<open>n - 1\<close>. With no panels both return the state unchanged. None
  of these calls reaches a failing index or a nil receiver.
\<close>

theorem focus_wraps_around:
  "(nav_ok t \<longrightarrow>
      (\<exists>t'. repeat_nav (length (panels t)) focusNext t = Inr t' \<and>
             focusIndex t' = focusIndex t) \<and>
      (\<exists>t1 t2. focusNext t = Inr t1 \<and> focusPrev t1 = Inr t2 \<and> focusIndex t2 = focusIndex t) \<and>
      (\<exists>t1 t2. focusPrev t = Inr t1 \<and> focusNext t1 = Inr t2 \<and> focusIndex t2 = focusIndex t) \<and>
      (\<exists>t1. focusNext t = Inr t1 \<and>
             focusIndex t1 = (if focusIndex t = int (length (panels t)) - 1 then 0
                              else focusIndex t + 1)) \<and>
      (\<exists>t1. focusPrev t = Inr t1 \<and>
             focusIndex t1 = (if focusIndex t = 0 then int (length (panels t)) - 1
                              else focusIndex t - 1))) \<and>
   (panels t = [] \<longrightarrow> focusNext t = Inr t \<and> focusPrev t = Inr t)"
proof (intro conjI impI)
  show "focusNext t = Inr t" if "panels t = []" using that by (simp add: focusNext_def)
  show "focusPrev t = Inr t" if "panels t = []" using that by (simp add: focusPrev_def)
next
  assume nav: "nav_ok t"
  let ?n = "int (length (panels t))"
  from nav have n: "0 < ?n" and f: "0 \<le> focusIndex t" "focusIndex t < ?n"
    by (auto simp: nav_ok_def)
  from repeat_focusNext [OF nav, of "length (panels t)"] f
  show "\<exists>t'. repeat_nav (length (panels t)) focusNext t = Inr t' \<and> focusIndex t' = focusIndex t"
    by auto
  from focusNext_fields [OF nav] obtain a where
    a: "focusNext t = Inr a" "focusIndex a = (focusIndex t + 1) mod ?n"
       "length (panels a) = length (panels t)" "app a \<noteq> None"
    by blast
  from focusPrev_fields [OF nav] obtain b where
    b: "focusPrev t = Inr b" "focusIndex b = (focusIndex t - 1) mod ?n"
       "length (panels b) = length (panels t)" "app b \<noteq> None"
    by blast
  from a n have oka: "nav_ok a" by (simp add: nav_ok_def)
  from b n have okb: "nav_ok b" by (simp add: nav_ok_def)
  from focusPrev_fields [OF oka] obtain a' where
    a': "focusPrev a = Inr a'" "focusIndex a' = (focusIndex a - 1) mod int (length (panels a))"
    by blast
  from focusNext_fields [OF okb] obtain b' where
    b': "focusNext b = Inr b'" "focusIndex b' = (focusIndex b + 1) mod int (length (panels b))"
    by blast
  have "focusIndex a' = focusIndex t"
    unfolding a' a using f by (simp add: mod_simps)
  with a a' show "\<exists>t1 t2. focusNext t = Inr t1 \<and> focusPrev t1 = Inr t2 \<and>
                    focusIndex t2 = focusIndex t"
    by blast
  have "focusIndex b' = focusIndex t"
    unfolding b' b using f by (simp add: mod_simps)
  with b b' show "\<exists>t1 t2. focusPrev t = Inr t1 \<and> focusNext t1 = Inr t2 \<and>
                    focusIndex t2 = focusIndex t"
    by blast
  have "(focusIndex t + 1) mod ?n =
          (if focusIndex t = ?n - 1 then 0 else focusIndex t + 1)"
    using f by auto
  with a show "\<exists>t1. focusNext t = Inr t1 \<and>
             focusIndex t1 = (if focusIndex t = ?n - 1 then 0 else focusIndex t + 1)"
    by simp
  have "(focusIndex t - 1) mod ?n =
          (if focusIndex t = 0 then ?n - 1 else focusIndex t - 1)"
    using f n by (auto simp: zmod_minus1)
  with b show "\<exists>t1. focusPrev t = Inr t1 \<and>
             focusIndex t1 = (if focusIndex t = 0 then ?n - 1 else focusIndex t - 1)"
    by simp
qed

theorem focus_wraps_around_witness:
  "nav_ok demo_tui \<and>
   (\<exists>t'. repeat_nav 4 focusNext demo_tui = Inr t' \<and> focusIndex t' = 0) \<and>
   (\<exists>t1. focusPrev demo_tui = Inr t1 \<and> focusIndex t1 = 3) \<and>
   panels empty_tui = [] \<and> focusNext empty_tui = Inr empty_tui \<and>
   focusPrev empty_tui = Inr empty_tui"
proof -
  have h: "nav_ok demo_tui" by (simp add: nav_ok_def) (simp add: demo_tui_def)
  have e: "panels empty_tui = []" by (simp add: empty_tui_def)
  have f: "focusIndex demo_tui = 0" by (simp add: demo_tui_def)
  show ?thesis
    using h e f focus_wraps_around [of demo_tui] focus_wraps_around [of empty_tui]
    by simp
qed

section \<open>Unsupported backends fail at startup\<close>

text \<open>
  C8. \<^verbatim>\<open>createBackend\<close> returns the unsupported-backend error for every identifier it has
  no case for, and for the identifiers it has a case for it returns what the constructor
  of that backend returns; a backend it returns bears the name of the identifier (the
  empty identifier: prometheus). When the configuration file names an identifier outside
  the set, \<^verbatim>\<open>New\<close> fails while loading the configuration, before \<^verbatim>\<open>Connect\<close> is called and
  before the UI is built, and \<^verbatim>\<open>main\<close> exits with code 1.
\<close>

theorem unsupported_backend_fails_at_startup:
  "(\<not> supported_backend (Backend cfg) \<longrightarrow>
      createBackend w cfg = Inl (unsupported_backend (Backend cfg))) \<and>
   (supported_backend (Backend cfg) \<longrightarrow>
      createBackend w cfg =
        (if Backend cfg = ''mock'' then Inr (mock_NewClient w (Mock cfg))
         else if Backend cfg = ''influxdb1'' then influxdb1_NewClient w (InfluxDB1 cfg)
         else if Backend cfg = ''influxdb'' then influxdb_NewClient (InfluxDB cfg)
         else prom_NewClient w (Prometheus cfg))) \<and>
   (\<forall>c. createBackend w cfg = Inr c \<longrightarrow>
      supported_backend (Backend cfg) \<and>
      client_Name c = (if Backend cfg = [] then ''prometheus'' else Backend cfg)) \<and>
   (ReadFile w path = Inr data \<and> Unmarshal w data = Inr cfg \<and>
    \<not> supported_backend (Backend cfg) \<longrightarrow>
      (New w path :: event list \<times> (failure + 'v App)) =
        ([], Inl (Error (''failed to load config: invalid configuration: '' @
                         unsupported_backend (Backend cfg)))) \<and>
      (main_startup w path :: event list \<times> 'v startup) = ([], ExitCode 1))"
proof (intro conjI impI allI)
  show "createBackend w cfg = Inl (unsupported_backend (Backend cfg))"
    if "\<not> supported_backend (Backend cfg)"
    using that by (simp add: createBackend_def supported_backend_def)
  show "createBackend w cfg =
        (if Backend cfg = ''mock'' then Inr (mock_NewClient w (Mock cfg))
         else if Backend cfg = ''influxdb1'' then influxdb1_NewClient w (InfluxDB1 cfg)
         else if Backend cfg = ''influxdb'' then influxdb_NewClient (InfluxDB cfg)
         else prom_NewClient w (Prometheus cfg))"
    if "supported_backend (Backend cfg)"
    using that by (auto simp: createBackend_def supported_backend_def)
  show "supported_backend (Backend cfg)" if "createBackend w cfg = Inr c" for c
    using that by (rule createBackend_Inr)
  show "client_Name c = (if Backend cfg = [] then ''prometheus'' else Backend cfg)"
    if "createBackend w cfg = Inr c" for c
    using that by (rule createBackend_Inr)
next
  assume h: "ReadFile w path = Inr data \<and> Unmarshal w data = Inr cfg \<and>
    \<not> supported_backend (Backend cfg)"
  then have l: "LoadConfig w path =
                  Inl (''invalid configuration: '' @ unsupported_backend (Backend cfg))"
    by (simp add: LoadConfig_def Validate_unsupported)
  then show n: "(New w path :: event list \<times> (failure + 'v App)) =
        ([], Inl (Error (''failed to load config: invalid configuration: '' @
                         unsupported_backend (Backend cfg))))"
    by (simp add: New_def)
  show "(main_startup w path :: event list \<times> 'v startup) = ([], ExitCode 1)"
    using l by (simp add: main_startup_def New_def)
qed

theorem unsupported_backend_fails_at_startup_witness:
  "\<not> supported_backend (Backend (demo_config ''graphite'')) \<and>
   createBackend (demo_world ''graphite'') (demo_config ''graphite'') =
     Inl ''unsupported backend: graphite (supported: prometheus, influxdb, influxdb1, mock)'' \<and>
   ReadFile (demo_world ''graphite'') ''queries.yaml'' = Inr ''graphite'' \<and>
   Unmarshal (demo_world ''graphite'') ''graphite'' = Inr (demo_config ''graphite'') \<and>
   (main_startup (demo_world ''graphite'') ''queries.yaml'' :: event list \<times> real startup) =
     ([], ExitCode 1) \<and>
   supported_backend (Backend (demo_config ''mock'')) \<and>
   createBackend (demo_world ''mock'') (demo_config ''mock'') = Inr (MockClient \<lparr>Seed = 7\<rparr> 7)"
proof -
  have a: "\<not> supported_backend (Backend (demo_config ''graphite''))"
    by (simp add: supported_backend_def demo_config_def)
  have b: "ReadFile (demo_world ''graphite'') ''queries.yaml'' = Inr ''graphite''"
    "Unmarshal (demo_world ''graphite'') ''graphite'' = Inr (demo_config ''graphite'')"
    by (simp_all add: demo_world_def)
  have c: "supported_backend (Backend (demo_config ''mock''))"
    by (simp add: supported_backend_def demo_config_def)
  have d: "Backend (demo_config ''graphite'') = ''graphite''"
    "Backend (demo_config ''mock'') = ''mock''" "Mock (demo_config ''mock'') = \<lparr>Seed = 7\<rparr>"
    by (simp_all add: demo_config_def)
  show ?thesis
    using a b c d
      unsupported_backend_fails_at_startup
        [of "demo_config ''graphite''" "demo_world ''graphite''" "''queries.yaml''" "''graphite''",
         where ?'v = real]
      unsupported_backend_fails_at_startup
        [of "demo_config ''mock''" "demo_world ''mock''", where ?'v = real]
    by (simp add: unsupported_backend_def mock_NewClient_def)
qed

section \<open>The deprecated single-point entry\<close>

text \<open>
  C9. \<^verbatim>\<open>UpdateMetric\<close> with a point and no error is \<^verbatim>\<open>UpdateTimeSeries\<close> with the one-element
  series holding that point; with an error it is \<^verbatim>\<open>UpdateTimeSeries\<close> with a \<^verbatim>\<open>nil\<close> series
  and that error. The resulting states are equal, so the adapter writes nothing of its
  own.
\<close>

theorem update_metric_adapter:
  "UpdateMetric t index p None = UpdateTimeSeries t index (Some \<lparr>Points = [p]\<rparr>) None \<and>
   UpdateMetric t index p (Some e) = UpdateTimeSeries t index None (Some e)"
  by (simp add: UpdateMetric_def)

section \<open>A nil series on the success path\<close>

text \<open>
  C10. For an in-range index, an update with a \<^verbatim>\<open>nil\<close> series and no error stores \<^verbatim>\<open>nil\<close> as
  that history's series, so that not every history has a series any more; rendering that
  panel, directly or through the queued closure, then dereferences the \<^verbatim>\<open>nil\<close> pointer.
  \<^verbatim>\<open>NewTUI\<close> gives every history a series, an error update keeps that property, and so does
  a successful update whose series is not \<^verbatim>\<open>nil\<close>.
\<close>

theorem nil_series_breaks_invariant:
  "(0 \<le> index \<and> index < int (length (histories t)) \<longrightarrow>
      TimeSeries (histories (UpdateTimeSeries t index None None) ! nat index) = None \<and>
      \<not> series_non_nil (UpdateTimeSeries t index None None) \<and>
      (index < int (length (panels t)) \<longrightarrow>
         renderTimeSeriesGraph (UpdateTimeSeries t index None None) index = Inl NilDereference \<and>
         run_update (UpdateTimeSeries t index None None) (index, None) = Inl NilDereference)) \<and>
   (\<exists>t0. (NewTUI qs :: panic + 'v TUI) = Inr t0 \<and> series_non_nil t0) \<and>
   (series_non_nil t \<longrightarrow> series_non_nil (UpdateTimeSeries t index ts (Some e))) \<and>
   (series_non_nil t \<longrightarrow> series_non_nil (UpdateTimeSeries t index (Some s) None))"
  for t :: "'v TUI"
proof (intro conjI impI)
  assume r: "0 \<le> index \<and> index < int (length (histories t))"
  let ?u = "UpdateTimeSeries t index None None"
  from r have r1: "0 \<le> index" and r2: "index < int (length (histories t))" by simp_all
  note u = update_histories [OF r1 r2, of None None]
  from r1 r2 have i: "nat index < length (histories t)" by simp
  show n: "TimeSeries (histories ?u ! nat index) = None" using u i by simp
  have "histories ?u ! nat index \<in> set (histories ?u)" using u i by (simp add: set_update_memI)
  with n show "\<not> series_non_nil ?u"
    by (auto simp: series_non_nil_def list_all_iff)
  assume pl: "index < int (length (panels t))"
  have 1: "index < int (length (histories ?u))" using r2 u by simp
  have 2: "index < int (length (panels ?u))" using pl u by simp
  show "renderTimeSeriesGraph ?u index = Inl NilDereference"
    using render_nil [OF r1 1 2 n] .
  then show "run_update ?u (index, None) = Inl NilDereference"
    by (simp add: run_update_def)
next
  from NewTUI_fields [of qs] obtain t0 :: "'v TUI" where
    "NewTUI qs = Inr t0" "histories t0 = map new_history qs" by blast
  then show "\<exists>t0 :: 'v TUI. NewTUI qs = Inr t0 \<and> series_non_nil t0"
    by (auto simp: series_non_nil_def list_all_iff new_history_def)
next
  assume "series_non_nil t"
  then show "series_non_nil (UpdateTimeSeries t index ts (Some e))"
    by (rule series_non_nil_update) simp
next
  assume "series_non_nil t"
  then show "series_non_nil (UpdateTimeSeries t index (Some s) None)"
    by (rule series_non_nil_update) simp
qed

theorem nil_series_breaks_invariant_witness:
  "((0::int) \<le> 2 \<and> 2 < int (length (histories demo_tui))) \<and>
   2 < int (length (panels demo_tui)) \<and> series_non_nil demo_tui \<and>
   TimeSeries (histories (UpdateTimeSeries demo_tui 2 None None) ! 2) = None \<and>
   \<not> series_non_nil (UpdateTimeSeries demo_tui 2 None None) \<and>
   renderTimeSeriesGraph (UpdateTimeSeries demo_tui 2 None None) 2 = Inl NilDereference \<and>
   run_update (UpdateTimeSeries demo_tui 2 None None) (2, None) = Inl NilDereference \<and>
   series_non_nil (UpdateTimeSeries demo_tui 2 (Some demo_series) None) \<and>
   series_non_nil (UpdateTimeSeries demo_tui 2 None (Some ''timeout''))"
proof -
  have n: "series_non_nil demo_tui"
    by (simp add: series_non_nil_def demo_tui_def demo_queries_def new_history_def)
  show ?thesis
    using n nil_series_breaks_invariant [of 2 demo_tui "[]" None "''timeout''" demo_series]
    by simp
qed

end
